theory Spec2Isabelle
  imports Main "HOL-Library.Char_ord" "HOL-Library.List_Lexorder"
begin

section \<open>The submission validator of tests/test\_submission\_validator.py\<close>

text \<open>
  A shallow embedding of the class \<open>SubmissionValidator\<close>.

  Conventions of the model.
  \<^item> A Python \<open>str\<close> is a \<open>string\<close>; a character is one code point below 256.
    Strings are ordered as Python orders them: lexicographically by code point, a
    proper prefix first (the orders of \<open>Char_ord\<close> and \<open>List_Lexorder\<close>).
  \<^item> The message literals of the source are Russian. This file is ASCII, so every
    Cyrillic letter of a literal is written in Latin transliteration; the ASCII parts
    of a literal (digits, punctuation, \<open>uid\<close>, \<open>submission\<close>, \<open>test.csv\<close>, \<open>HTTP\<close>,
    \<open>API\<close>, \<open>(uid;type;request)\<close>) and every interpolated value are verbatim.
  \<^item> A check result is the source's tuple \<open>(name, passed, detail)\<close>; the detail is a
    \<open>string option\<close>, Python's \<open>None\<close> being \<open>None\<close>.
  \<^item> A Python \<open>set\<close> of strings is a \<open>string set\<close>: \<open>len\<close> is \<open>card\<close>, \<open>sorted\<close> is
    \<open>sorted_list_of_set\<close>, truthiness is non-emptiness.
  \<^item> The file system and the library calls that touch it (\<open>pathlib\<close>, \<open>open\<close>,
    \<open>csv.reader\<close>) are a parameter of the model, the record \<open>world\<close>.
  \<^item> An exception caught by the \<open>try\<close> of \<open>run_all_validations\<close> is a value of the
    body; an exception that leaves \<open>run_all_validations\<close> is the \<open>Inl\<close> of its result.
\<close>

subsection \<open>Data\<close>

type_synonym path = string

type_synonym check_result = "string \<times> bool \<times> string option"

definition name :: "check_result \<Rightarrow> string" where
  "name r = fst r"

definition passed :: "check_result \<Rightarrow> bool" where
  "passed r = fst (snd r)"

definition detail :: "check_result \<Rightarrow> string option" where
  "detail r = snd (snd r)"

text \<open>
  The environment. \<open>mk_path s\<close> is \<open>Path(s)\<close> and \<open>root_join s\<close> is
  \<open>current_dir.parent / s\<close>, both given by the string \<open>str\<close> prints for them;
  \<open>path_exists p\<close> is what \<open>p.exists()\<close> gives: its answer, or \<open>Inl\<close> of \<open>str(e)\<close> for
  the \<open>OSError\<close> \<open>e\<close> it raises (\<open>pathlib\<close> answers \<open>False\<close> only for the errors ENOENT,
  ENOTDIR, EBADF and ELOOP, and raises the others, such as ENAMETOOLONG and EACCES);
  \<open>open_csv p\<close> is what opening \<open>p\<close> as UTF-8 text and iterating
  \<open>csv.reader(f, delimiter=";")\<close> over it gives: the rows, or \<open>Inl\<close> of \<open>str(e)\<close> for the
  exception \<open>e\<close> raised on the way.
\<close>

record world =
  mk_path :: "string \<Rightarrow> path"
  root_join :: "string \<Rightarrow> path"
  path_exists :: "path \<Rightarrow> string + bool"
  open_csv :: "path \<Rightarrow> string + string list list"

record validator =
  submission_path :: "path option"
  test_path :: path
  valid_methods :: "string set"

text \<open>An exception that propagates to the caller of \<open>run_all_validations\<close>.\<close>

datatype exn = AttributeError string | OSError string

subsection \<open>String helpers of the Python runtime\<close>

text \<open>\<open>str(n)\<close> and \<open>f"{n}"\<close> for a natural number: its decimal digits.\<close>

definition digit_char :: "nat \<Rightarrow> char" where
  "digit_char d = ''0123456789'' ! d"

fun str_nat :: "nat \<Rightarrow> string" where
  "str_nat n = (if n < 10 then [digit_char n]
                else str_nat (n div 10) @ [digit_char (n mod 10)])"

declare str_nat.simps [simp del]

text \<open>\<open>sep.join(xs)\<close>.\<close>

fun join :: "string \<Rightarrow> string list \<Rightarrow> string" where
  "join sep [] = []"
| "join sep [x] = x"
| "join sep (x # y # ys) = x @ sep @ join sep (y # ys)"

text \<open>\<open>s.startswith(p)\<close>.\<close>

definition startswith :: "string \<Rightarrow> string \<Rightarrow> bool" where
  "startswith s p = (take (length p) s = p)"

text \<open>\<open>c.isspace()\<close> on the code points below 256, and \<open>s.strip()\<close>.\<close>

definition isspace :: "char \<Rightarrow> bool" where
  "isspace c = (of_char c \<in> {9, 10, 11, 12, 13, 28, 29, 30, 31, 32, 133, 160 :: nat})"

definition strip :: "string \<Rightarrow> string" where
  "strip s = rev (dropWhile isspace (rev (dropWhile isspace s)))"

text \<open>The apostrophe that the f-strings put around an interpolated value.\<close>

definition apostrophe :: string where
  "apostrophe = [CHR 0x27]"

subsection \<open>\<open>SubmissionValidator.__init__\<close>\<close>

text \<open>
  The parameter \<open>submission_path\<close> shadows the module's default path of that name, so
  the branch for an omitted path stores the parameter, \<open>None\<close>.
\<close>

definition init :: "world \<Rightarrow> string \<Rightarrow> string option \<Rightarrow> validator" where
  "init w test_path_arg submission_path_arg =
     \<lparr> submission_path =
         (case submission_path_arg of
            None \<Rightarrow> submission_path_arg
          | Some s \<Rightarrow> Some (mk_path w s)),
       test_path = root_join w test_path_arg,
       valid_methods = {''GET'', ''POST'', ''PUT'', ''DELETE'', ''PATCH'', ''HEAD'', ''OPTIONS''} \<rparr>"

subsection \<open>\<open>SubmissionValidator._read_csv\<close>\<close>

definition read_csv :: "world \<Rightarrow> path \<Rightarrow> string + string list list" where
  "read_csv w file_path =
     (case open_csv w file_path of
        Inl e \<Rightarrow> Inl (''Ne udalos prochitat fajl '' @ file_path @ '': '' @ e)
      | Inr rows \<Rightarrow> Inr (map (map strip) rows))"

subsection \<open>\<open>SubmissionValidator.run_all_validations\<close>\<close>

text \<open>
  The set comprehension \<open>{row[0] for row in rows}\<close>: \<open>row[0]\<close> raises \<open>IndexError\<close>
  on an empty row, whose \<open>str\<close> is the text below.
\<close>

fun first_cells :: "string list list \<Rightarrow> string + string set" where
  "first_cells [] = Inr {}"
| "first_cells (row # rows) =
     (case row of
        [] \<Rightarrow> Inl ''list index out of range''
      | c # _ \<Rightarrow>
          (case first_cells rows of
             Inl e \<Rightarrow> Inl e
           | Inr s \<Rightarrow> Inr (insert c s)))"

text \<open>
  The body of the \<open>for\<close> loop for row number \<open>i\<close>, on the state
  \<open>(results, submission_uids)\<close>.
\<close>

definition check_row ::
  "string set \<Rightarrow> nat \<Rightarrow> string list \<Rightarrow> check_result list \<times> string set
     \<Rightarrow> check_result list \<times> string set" where
  "check_row methods i row st =
     (case st of (results, submission_uids) \<Rightarrow>
       (case row of
          [uid, method, request] \<Rightarrow>
            if uid = [] \<or> method = [] \<or> request = [] then
              (results @
                 [(''Proverka pustyh znachenij (stroka '' @ str_nat i @ '')'', False,
                   Some (''Stroka '' @ str_nat i @ '': obnaruzheny pustye znacheniya''))],
               submission_uids)
            else
              let results =
                    (if uid \<in> submission_uids then
                       results @
                         [(''Proverka unikalnosti uid (stroka '' @ str_nat i @ '')'', False,
                           Some (''Stroka '' @ str_nat i @ '': dublirovanie uid '' @
                                 apostrophe @ uid @ apostrophe))]
                     else results);
                  submission_uids = insert uid submission_uids;
                  results =
                    (if method \<notin> methods then
                       results @
                         [(''Proverka validnosti HTTP metoda (stroka '' @ str_nat i @ '')'', False,
                           Some (''Stroka '' @ str_nat i @ '': nekorrektnyj HTTP metod '' @
                                 apostrophe @ method @ apostrophe @
                                 ''. Dopustimye znacheniya: '' @
                                 join '', '' (sorted_list_of_set methods)))]
                     else results);
                  results =
                    (if \<not> startswith request ''/'' then
                       results @
                         [(''Proverka validnosti API puti (stroka '' @ str_nat i @ '')'', False,
                           Some (''Stroka '' @ str_nat i @ '': nekorrektnyj put zaprosa '' @
                                 apostrophe @ request @ apostrophe @
                                 ''. Put dolzhen nachinatsya s '' @
                                 apostrophe @ ''/'' @ apostrophe))]
                     else results)
              in (results, submission_uids)
        | _ \<Rightarrow> (results, submission_uids)))"

text \<open>\<open>for i, row in enumerate(submission_rows, start=i): ...\<close>\<close>

fun rows_loop ::
  "string set \<Rightarrow> nat \<Rightarrow> string list list \<Rightarrow> check_result list \<times> string set
     \<Rightarrow> check_result list \<times> string set" where
  "rows_loop methods i [] st = st"
| "rows_loop methods i (row # rows) st =
     rows_loop methods (Suc i) rows (check_row methods i row st)"

text \<open>\<open>', '.join(sorted(uids)[:5])\<close> followed by \<open>'...' if len(uids) > 5 else ''\<close>.\<close>

definition listing :: "string set \<Rightarrow> string" where
  "listing uids =
     join '', '' (take 5 (sorted_list_of_set uids)) @ (if card uids > 5 then ''...'' else '''')"

text \<open>
  The body of the \<open>try\<close> statement, from the results accumulated before it. It gives the
  results accumulated when the body is left, and \<open>Some (str e)\<close> when it is left by an
  exception \<open>e\<close>, \<open>None\<close> when it is left by a \<open>return\<close> or by reaching its end.
\<close>

definition try_body ::
  "world \<Rightarrow> validator \<Rightarrow> path \<Rightarrow> check_result list \<Rightarrow> check_result list \<times> string option" where
  "try_body w v sp results =
     (case read_csv w sp of
        Inl e \<Rightarrow> (results, Some e)
      | Inr submission_data \<Rightarrow>
     (case read_csv w (test_path v) of
        Inl e \<Rightarrow> (results, Some e)
      | Inr test_data \<Rightarrow>
          if length submission_data = 0 then
            (results @ [(''Proverka struktury fajla'', False, Some ''Fajl submission.csv pust'')],
             None)
          else if \<not> list_all (\<lambda>row. length row = 3) submission_data then
            (results @
               [(''Proverka struktury fajla'', False,
                 Some ''Nekorrektnaya struktura fajla: ozhidaetsya 3 kolonki (uid;type;request)'')],
             None)
          else
            let results = results @ [(''Proverka struktury fajla'', True, None)];
                submission_rows = drop 1 submission_data
            in (case first_cells (drop 1 test_data) of
                  Inl e \<Rightarrow> (results, Some e)
                | Inr test_uids \<Rightarrow>
                    (case rows_loop (valid_methods v) 2 submission_rows (results, {}) of
                       (results, submission_uids) \<Rightarrow>
                         let results =
                               (if length submission_rows \<noteq> card test_uids then
                                  results @
                                    [(''Proverka sootvetstviya kolichestva strok'', False,
                                      Some (''Nekorrektnoe kolichestvo strok: ozhidaetsya '' @
                                            str_nat (card test_uids) @ '', najdeno '' @
                                            str_nat (length submission_rows)))]
                                else
                                  results @
                                    [(''Proverka sootvetstviya kolichestva strok'', True, None)]);
                             missing_uids = test_uids - submission_uids;
                             results =
                               (if missing_uids \<noteq> {} then
                                  results @
                                    [(''Proverka nalichiya vseh uid iz test.csv'', False,
                                      Some (''Otsutstvuyut zapisi dlya uid: '' @
                                            listing missing_uids))]
                                else
                                  results @
                                    [(''Proverka nalichiya vseh uid iz test.csv'', True, None)]);
                             extra_uids = submission_uids - test_uids;
                             results =
                               (if extra_uids \<noteq> {} then
                                  results @
                                    [(''Proverka otsutstviya lishnih uid'', False,
                                      Some (''Obnaruzheny lishnie uid, otsutstvuyushchie v test.csv: '' @
                                            listing extra_uids))]
                                else
                                  results @ [(''Proverka otsutstviya lishnih uid'', True, None)])
                         in (results, None)))))"

text \<open>
  \<open>run_all_validations\<close>. The two existence tests call \<open>.exists()\<close> outside the
  \<open>try\<close>. On the stored submission path \<open>None\<close> the attribute lookup raises
  \<open>AttributeError\<close>; on a path, \<open>.exists()\<close> may raise \<open>OSError\<close>. Either exception
  leaves the method.
\<close>

definition run_all_validations :: "world \<Rightarrow> validator \<Rightarrow> exn + check_result list" where
  "run_all_validations w v =
     (case submission_path v of
        None \<Rightarrow> Inl (AttributeError (apostrophe @ ''NoneType'' @ apostrophe @
                       '' object has no attribute '' @ apostrophe @ ''exists'' @ apostrophe))
      | Some sp \<Rightarrow>
     (case path_exists w sp of
        Inl e \<Rightarrow> Inl (OSError e)
      | Inr submission_found \<Rightarrow>
          if \<not> submission_found then
            Inr [(''Proverka nalichiya submission fajla'', False,
                  Some (''Fajl '' @ sp @ '' ne najden''))]
          else
            let results = [(''Proverka nalichiya submission fajla'', True, None)] in
            (case path_exists w (test_path v) of
               Inl e \<Rightarrow> Inl (OSError e)
             | Inr test_found \<Rightarrow>
                 if \<not> test_found then
                   Inr (results @
                          [(''Proverka nalichiya test fajla'', False,
                            Some (''Fajl '' @ test_path v @ '' ne najden''))])
                 else
                   let results = results @ [(''Proverka nalichiya test fajla'', True, None)] in
                   (case try_body w v sp results of
                      (results, None) \<Rightarrow> Inr results
                    | (results, Some e) \<Rightarrow>
                        Inr (results @
                               [(''Proverka obrabotki fajlov'', False,
                                 Some (''Oshibka pri obrabotke fajlov: '' @ e))])))))"

subsection \<open>Notions used to state the properties\<close>

text \<open>
  A row of exactly three cells, none of them empty: the rows on which the loop reaches
  the uniqueness check and adds the uid to \<open>submission_uids\<close>.
\<close>

definition complete :: "string list \<Rightarrow> bool" where
  "complete row = (length row = 3 \<and> list_all (\<lambda>c. c \<noteq> []) row)"

text \<open>
  The uids (first cells) of the complete rows among \<open>rows\<close>.
\<close>

definition collected :: "string list list \<Rightarrow> string set" where
  "collected rows = set (map hd (filter complete rows))"

text \<open>
  The results the \<open>for\<close> loop appends, for rows numbered from \<open>i\<close> and the set \<open>s\<close> of
  uids seen before it.
\<close>

definition rows_out :: "string set \<Rightarrow> nat \<Rightarrow> string list list \<Rightarrow> string set \<Rightarrow> check_result list" where
  "rows_out ms i rows s = fst (rows_loop ms i rows ([], s))"

text \<open>
  The run gets past every short circuit and the set comprehension over the reference
  rows: both files exist and are read, as the tables \<open>sd\<close> (submission) and \<open>td\<close>
  (reference); \<open>sd\<close> has a row, all its rows have three cells, and no reference data row
  is empty. Such a run executes the per-row loop and the three aggregate checks.
\<close>

definition reaches_row_checks ::
  "world \<Rightarrow> validator \<Rightarrow> string list list \<Rightarrow> string list list \<Rightarrow> bool" where
  "reaches_row_checks w v sd td =
     (case submission_path v of
        None \<Rightarrow> False
      | Some sp \<Rightarrow>
          path_exists w sp = Inr True \<and> path_exists w (test_path v) = Inr True \<and>
          read_csv w sp = Inr sd \<and> read_csv w (test_path v) = Inr td \<and>
          sd \<noteq> [] \<and> list_all (\<lambda>row. length row = 3) sd \<and>
          list_all (\<lambda>row. row \<noteq> []) (drop 1 td))"

text \<open>
  The result the loop appends when the uid of row \<open>i\<close> was seen before, and the test
  that a result is a uniqueness result, by the fixed part of its name.
\<close>

abbreviation uniqueness_failure :: "nat \<Rightarrow> string \<Rightarrow> check_result" where
  "uniqueness_failure i uid \<equiv>
     (''Proverka unikalnosti uid (stroka '' @ str_nat i @ '')'', False,
      Some (''Stroka '' @ str_nat i @ '': dublirovanie uid '' @ apostrophe @ uid @ apostrophe))"

definition is_uniqueness :: "check_result \<Rightarrow> bool" where
  "is_uniqueness r = startswith (name r) ''Proverka unikalnosti uid''"

text \<open>
  A valid input pair, as the specification lists it: both files exist and are read, as
  the tables \<open>sd\<close> and \<open>td\<close>; the submission has a header and every row of it has
  exactly 3 non-empty cells; every reference uid (the first cell of a reference data row
  that has one) occurs exactly once among the submission uids and no other uid occurs;
  the valid methods are the seven HTTP methods, every method is one of them and every
  path starts with \<open>/\<close>.
\<close>

definition valid_input_pair ::
  "world \<Rightarrow> validator \<Rightarrow> string list list \<Rightarrow> string list list \<Rightarrow> bool" where
  "valid_input_pair w v sd td =
     (case submission_path v of
        None \<Rightarrow> False
      | Some sp \<Rightarrow>
          path_exists w sp = Inr True \<and> path_exists w (test_path v) = Inr True \<and>
          read_csv w sp = Inr sd \<and> read_csv w (test_path v) = Inr td \<and>
          sd \<noteq> [] \<and>
          list_all (\<lambda>row. length row = 3 \<and> list_all (\<lambda>c. c \<noteq> []) row) sd \<and>
          (let uids = map hd (drop 1 sd);
               reference = map hd (filter (\<lambda>row. row \<noteq> []) (drop 1 td))
           in list_all (\<lambda>u. count_list uids u = 1) reference \<and>
              list_all (\<lambda>u. u \<in> set reference) uids) \<and>
          valid_methods v = {''GET'', ''POST'', ''PUT'', ''DELETE'', ''PATCH'', ''HEAD'', ''OPTIONS''} \<and>
          list_all (\<lambda>row. row ! 1 \<in> valid_methods v \<and> startswith (row ! 2) ''/'')
            (drop 1 sd))"

text \<open>
  A result carries a detail exactly when it failed.
\<close>

definition consistent :: "check_result \<Rightarrow> bool" where
  "consistent r = ((detail r \<noteq> None) = (\<not> passed r))"

text \<open>
  A concrete environment from a list of files, each with what reading it gives:
  \<open>Path\<close> keeps the string, the project root is \<open>/repo\<close>, and a path exists when it is
  listed. A path of more than 255 characters is refused by the file system:
  \<open>.exists()\<close> and \<open>open\<close> raise \<open>OSError\<close> with errno 36 for it, as they do for an
  over-long file name.
\<close>

definition name_too_long :: "path \<Rightarrow> string" where
  "name_too_long p = ''[Errno 36] File name too long: '' @ apostrophe @ p @ apostrophe"

definition world_of :: "(path \<times> (string + string list list)) list \<Rightarrow> world" where
  "world_of files =
     \<lparr> mk_path = (\<lambda>s. s),
       root_join = (\<lambda>s. ''/repo/'' @ s),
       path_exists = (\<lambda>p. if 255 < length p then Inl (name_too_long p)
                          else Inr (map_of files p \<noteq> None)),
       open_csv = (\<lambda>p. if 255 < length p then Inl (name_too_long p)
                       else (case map_of files p of
                               None \<Rightarrow> Inl ''No such file or directory''
                             | Some c \<Rightarrow> c)) \<rparr>"


text \<open>
  Environments for the examples.
\<close>

definition short_row_world :: world where
  "short_row_world = world_of
     [(''s.csv'', Inr [[''uid'', ''type'', ''request''], [''1'', ''GET'']]),
      (''/repo/t.csv'', Inr [[''uid''], [''1'']])]"

definition unreadable_world :: world where
  "unreadable_world = world_of
     [(''s.csv'', Inr [[''uid'', ''type'', ''request''], [''1'', ''GET'', ''/a'']]),
      (''/repo/t.csv'', Inl ''Permission denied'')]"

definition scenario_a_world :: world where
  "scenario_a_world = world_of
     [(''s.csv'', Inr [[''uid'', ''type'', ''request''], [''1'', ''GET'', ''/a''], [''2'', ''POST'', ''/b'']]),
      (''/repo/t.csv'', Inr [[''uid'', ''question''], [''1'', ''x''], [''2'', ''y''], [''3'', ''z'']])]"

definition many_missing_world :: world where
  "many_missing_world = world_of
     [(''s.csv'', Inr [[''uid'', ''type'', ''request''], [''x'', ''GET'', ''/a'']]),
      (''/repo/t.csv'', Inr [[''uid''], [''g''], [''c''], [''a''], [''f''], [''b''], [''e''], [''d'']])]"

definition duplicates_world :: world where
  "duplicates_world = world_of
     [(''s.csv'', Inr [[''uid'', ''type'', ''request''], [''1'', ''GET'', ''/a''],
                       [''2'', ''GET'', ''/b''], [''1'', ''POST'', ''/c''],
                       [''1'', [], ''/d''], [''1'', ''PUT'', ''/e'']]),
      (''/repo/t.csv'', Inr [[''uid''], [''1''], [''2'']])]"

definition blank_reference_world :: world where
  "blank_reference_world = world_of
     [(''s.csv'', Inr [[''uid'', ''type'', ''request''], [''1'', ''GET'', ''/a'']]),
      (''/repo/t.csv'', Inr [[''uid''], [], [''1'']])]"

definition scenario_b_world :: world where
  "scenario_b_world = world_of
     [(''s.csv'', Inr [[''uid'', ''type'', ''request''], [''u1'', ''GET'', ''/api/x'']]),
      (''/repo/t.csv'', Inr [[''uid''], [''u1'']])]"

definition incomplete_only_world :: world where
  "incomplete_only_world = world_of
     [(''s.csv'', Inr [[''uid'', ''type'', ''request''], [''1'', ''GET'', ''/a''],
                       [''2'', [], ''/b''], [''2'', ''GET'', []]]),
      (''/repo/t.csv'', Inr [[''uid''], [''1''], [''2'']])]"

definition incomplete_then_complete_world :: world where
  "incomplete_then_complete_world = world_of
     [(''s.csv'', Inr [[''uid'', ''type'', ''request''], [''1'', ''GET'', ''/a''],
                       [''1'', [], ''/b''], [''1'', ''GET'', ''/c'']]),
      (''/repo/t.csv'', Inr [[''uid''], [''1'']])]"

section \<open>Auxiliary facts\<close>

subsection \<open>Decimal numerals\<close>

lemma digit_char_inj: "a < 10 \<Longrightarrow> b < 10 \<Longrightarrow> digit_char a = digit_char b \<Longrightarrow> a = b"
proof -
  assume a: "a < 10" and b: "b < 10" and e: "digit_char a = digit_char b"
  have d: "distinct ''0123456789''" by simp
  have "length ''0123456789'' = 10" by simp
  with a b d e show "a = b"
    unfolding digit_char_def by (metis nth_eq_iff_index_eq)
qed

lemma str_nat_length: "0 < length (str_nat n)"
  by (induction n rule: str_nat.induct) (subst str_nat.simps, simp)

lemma str_nat_inj: "str_nat a = str_nat b \<Longrightarrow> a = b"
proof (induction a arbitrary: b rule: str_nat.induct)
  case (1 n)
  show ?case
  proof (cases "n < 10")
    case True
    then have sn: "str_nat n = [digit_char n]" by (subst str_nat.simps) simp
    show ?thesis
    proof (cases "b < 10")
      case True
      then have "str_nat b = [digit_char b]" by (subst str_nat.simps) simp
      with sn "1.prems" \<open>n < 10\<close> True show ?thesis by (simp add: digit_char_inj)
    next
      case False
      then have "str_nat b = str_nat (b div 10) @ [digit_char (b mod 10)]"
        by (subst str_nat.simps) simp
      with sn "1.prems" have "str_nat (b div 10) = []" by simp
      with str_nat_length [of "b div 10"] show ?thesis by simp
    qed
  next
    case False
    then have sn: "str_nat n = str_nat (n div 10) @ [digit_char (n mod 10)]"
      by (subst str_nat.simps) simp
    show ?thesis
    proof (cases "b < 10")
      case True
      then have "str_nat b = [digit_char b]" by (subst str_nat.simps) simp
      with sn "1.prems" have "str_nat (n div 10) = []" by simp
      with str_nat_length [of "n div 10"] show ?thesis by simp
    next
      case bf: False
      then have "str_nat b = str_nat (b div 10) @ [digit_char (b mod 10)]"
        by (subst str_nat.simps) simp
      with sn "1.prems" have e1: "str_nat (n div 10) = str_nat (b div 10)"
        and e2: "digit_char (n mod 10) = digit_char (b mod 10)" by simp_all
      from "1.IH" [OF False e1] have d: "n div 10 = b div 10" .
      from e2 have m: "n mod 10 = b mod 10" by (simp add: digit_char_inj)
      from d m show ?thesis by (metis div_mult_mod_eq)
    qed
  qed
qed

subsection \<open>The loop over the submission rows\<close>

lemma length3_cases: "length row = 3 \<Longrightarrow> \<exists>a b c. row = [a, b, c]"
  by (cases row; simp; rename_tac x xs; case_tac xs; simp; rename_tac y ys; case_tac ys; simp)

lemma complete_triple [simp]: "complete [a, b, c] = (a \<noteq> [] \<and> b \<noteq> [] \<and> c \<noteq> [])"
  by (simp add: complete_def)

lemma complete_length: "complete row \<Longrightarrow> length row = 3"
  by (simp add: complete_def)

lemma check_row_triple:
  "check_row ms i [a, b, c] (rs, s) =
     (if a = [] \<or> b = [] \<or> c = [] then
        (rs @ [(''Proverka pustyh znachenij (stroka '' @ str_nat i @ '')'', False,
                Some (''Stroka '' @ str_nat i @ '': obnaruzheny pustye znacheniya''))], s)
      else
        (rs @ (if a \<in> s then [uniqueness_failure i a] else [])
            @ (if b \<notin> ms then
                 [(''Proverka validnosti HTTP metoda (stroka '' @ str_nat i @ '')'', False,
                   Some (''Stroka '' @ str_nat i @ '': nekorrektnyj HTTP metod '' @
                         apostrophe @ b @ apostrophe @ ''. Dopustimye znacheniya: '' @
                         join '', '' (sorted_list_of_set ms)))] else [])
            @ (if \<not> startswith c ''/'' then
                 [(''Proverka validnosti API puti (stroka '' @ str_nat i @ '')'', False,
                   Some (''Stroka '' @ str_nat i @ '': nekorrektnyj put zaprosa '' @
                         apostrophe @ c @ apostrophe @ ''. Put dolzhen nachinatsya s '' @
                         apostrophe @ ''/'' @ apostrophe))] else []),
         insert a s))"
  by (simp add: check_row_def Let_def)

lemma check_row_other: "length row \<noteq> 3 \<Longrightarrow> check_row ms i row st = st"
  by (cases st) (auto simp add: check_row_def split: list.split)

lemma check_row_append:
  "check_row ms i row (rs, s) =
     (rs @ fst (check_row ms i row ([], s)), snd (check_row ms i row ([], s)))"
proof (cases "length row = 3")
  case True
  then obtain a b c where "row = [a, b, c]" using length3_cases by blast
  then show ?thesis by (simp add: check_row_triple)
next
  case False
  then show ?thesis by (simp add: check_row_other)
qed

lemma check_row_seen:
  "snd (check_row ms i row (rs, s)) = (if complete row then insert (hd row) s else s)"
proof (cases "length row = 3")
  case True
  then obtain a b c where "row = [a, b, c]" using length3_cases by blast
  then show ?thesis by (simp add: check_row_triple)
next
  case False
  then show ?thesis using complete_length by (auto simp add: check_row_other)
qed

lemma rows_loop_append:
  "rows_loop ms i rows (rs, s) =
     (rs @ fst (rows_loop ms i rows ([], s)), snd (rows_loop ms i rows ([], s)))"
proof (induction rows arbitrary: i rs s)
  case Nil
  show ?case by simp
next
  case (Cons row rows)
  obtain out s' where c0: "check_row ms i row ([], s) = (out, s')"
    by (cases "check_row ms i row ([], s)")
  have c: "check_row ms i row (rs, s) = (rs @ out, s')"
    using check_row_append [of ms i row rs s] c0 by simp
  let ?L = "rows_loop ms (Suc i) rows ([], s')"
  have l1: "rows_loop ms (Suc i) rows (rs @ out, s') = ((rs @ out) @ fst ?L, snd ?L)"
    by (rule Cons.IH)
  have l2: "rows_loop ms (Suc i) rows (out, s') = (out @ fst ?L, snd ?L)"
    by (rule Cons.IH)
  show ?case by (simp add: c c0 l1 l2)
qed

lemma collected_Nil [simp]: "collected [] = {}"
  by (simp add: collected_def)

lemma collected_Cons [simp]:
  "collected (row # rows) = (if complete row then insert (hd row) (collected rows) else collected rows)"
  by (simp add: collected_def)

lemma rows_loop_seen:
  "snd (rows_loop ms i rows (rs, s)) = s \<union> collected rows"
proof (induction rows arbitrary: i rs s)
  case Nil
  show ?case by simp
next
  case (Cons row rows)
  obtain rs' s' where c: "check_row ms i row (rs, s) = (rs', s')" by (cases "check_row ms i row (rs, s)")
  then have "s' = (if complete row then insert (hd row) s else s)"
    using check_row_seen [of ms i row rs s] by simp
  with c Cons.IH [of "Suc i" rs' s'] show ?case by auto
qed

lemma rows_loop_eq:
  "rows_loop ms i rows (rs, s) = (rs @ rows_out ms i rows s, s \<union> collected rows)"
  unfolding rows_out_def
  using rows_loop_append [of ms i rows rs s] rows_loop_seen [of ms i rows "[]" s]
  by simp

lemma rows_loop_eq0:
  "rows_loop ms i rows (rs, {}) = (rs @ rows_out ms i rows {}, collected rows)"
  by (simp add: rows_loop_eq)

lemma rows_out_Nil [simp]: "rows_out ms i [] s = []"
  by (simp add: rows_out_def)

lemma rows_out_Cons:
  "rows_out ms i (row # rows) s =
     fst (check_row ms i row ([], s)) @
     rows_out ms (Suc i) rows (if complete row then insert (hd row) s else s)"
proof -
  obtain out s' where c: "check_row ms i row ([], s) = (out, s')"
    by (cases "check_row ms i row ([], s)")
  then have s': "s' = (if complete row then insert (hd row) s else s)"
    using check_row_seen [of ms i row "[]" s] by simp
  have "rows_out ms i (row # rows) s = fst (rows_loop ms (Suc i) rows (out, s'))"
    by (simp add: rows_out_def c)
  also have "\<dots> = out @ rows_out ms (Suc i) rows s'"
    by (simp add: rows_loop_eq)
  finally show ?thesis by (simp add: c s')
qed

lemma consistent_simps [simp]:
  "consistent (n, True, None)" "consistent (n, False, Some d)"
  by (simp_all add: consistent_def detail_def passed_def)

lemma check_row_consistent: "list_all consistent (fst (check_row ms i row ([], s)))"
proof (cases "length row = 3")
  case True
  then obtain a b c where "row = [a, b, c]" using length3_cases by blast
  then show ?thesis by (simp add: check_row_triple)
next
  case False
  then show ?thesis by (simp add: check_row_other)
qed

lemma rows_out_consistent: "list_all consistent (rows_out ms i rows s)"
  by (induction rows arbitrary: i s) (simp_all add: rows_out_Cons check_row_consistent)

lemma check_row_uniqueness:
  "filter is_uniqueness (fst (check_row ms i row ([], s))) =
     (if complete row \<and> hd row \<in> s then [uniqueness_failure i (hd row)] else [])"
proof (cases "length row = 3")
  case True
  then obtain a b c where "row = [a, b, c]" using length3_cases by blast
  then show ?thesis
    by (simp add: check_row_triple is_uniqueness_def name_def startswith_def)
next
  case False
  then show ?thesis using complete_length by (auto simp add: check_row_other)
qed

lemma rows_out_uniqueness:
  "filter is_uniqueness (rows_out ms i rows s) =
     map (\<lambda>(n, row). uniqueness_failure n (hd row))
       (filter (\<lambda>(n, row). complete row \<and> hd row \<in> s \<union> collected (take (n - i) rows))
          (enumerate i rows))"
proof (induction rows arbitrary: i s)
  case Nil
  show ?case by simp
next
  case (Cons row rows)
  let ?s = "if complete row then insert (hd row) s else s"
  have tail: "filter (\<lambda>(n, r). complete r \<and> hd r \<in> s \<union> collected (take (n - i) (row # rows)))
                (enumerate (Suc i) rows) =
              filter (\<lambda>(n, r). complete r \<and> hd r \<in> ?s \<union> collected (take (n - Suc i) rows))
                (enumerate (Suc i) rows)"
  proof (rule filter_cong [OF refl])
    fix p assume "p \<in> set (enumerate (Suc i) rows)"
    then have "Suc i \<le> fst p" by (simp add: in_set_enumerate_eq)
    then have "fst p - i = Suc (fst p - Suc i)" by simp
    then show "(case p of (n, r) \<Rightarrow> complete r \<and> hd r \<in> s \<union> collected (take (n - i) (row # rows))) =
               (case p of (n, r) \<Rightarrow> complete r \<and> hd r \<in> ?s \<union> collected (take (n - Suc i) rows))"
      by (cases p) auto
  qed
  show ?case
    unfolding rows_out_Cons filter_append check_row_uniqueness Cons.IH enumerate_simps
      filter.simps tail [symmetric]
    by simp
qed

lemma mem_map_filter: "(y \<in> set (map f (filter P xs))) = (\<exists>p\<in>set xs. P p \<and> f p = y)"
  by auto

lemma uniqueness_failure_eq:
  "(uniqueness_failure n x = uniqueness_failure i u) = (n = i \<and> x = u)"
  by (auto dest: str_nat_inj)

lemma is_uniqueness_failure: "is_uniqueness (uniqueness_failure i u)"
  by (simp add: is_uniqueness_def name_def startswith_def)

lemma nth_data_row: "2 \<le> i \<Longrightarrow> i \<le> length sd \<Longrightarrow> drop 1 sd ! (i - 2) = sd ! (i - 1)"
proof -
  assume a: "2 \<le> i" "i \<le> length sd"
  then have "drop 1 sd ! (i - 2) = sd ! (1 + (i - 2))" by (intro nth_drop) simp
  also from a have "1 + (i - 2) = i - 1" by simp
  finally show ?thesis .
qed

lemma count_one_distinct: "\<forall>x\<in>set xs. count_list xs x = 1 \<Longrightarrow> distinct xs"
proof (induction xs)
  case Nil
  show ?case by simp
next
  case (Cons a xs)
  from Cons.prems have "count_list xs a = 0" by simp
  then have a: "a \<notin> set xs" by (simp add: count_list_0_iff)
  have "\<forall>x\<in>set xs. count_list xs x = 1"
  proof
    fix x assume x: "x \<in> set xs"
    with a have "a \<noteq> x" by auto
    with Cons.prems x show "count_list xs x = 1" by auto
  qed
  with Cons.IH a show ?case by simp
qed

lemma rows_out_valid:
  assumes "list_all complete rows"
    and "list_all (\<lambda>row. row ! 1 \<in> ms \<and> startswith (row ! 2) ''/'') rows"
    and "distinct (map hd rows)" and "set (map hd rows) \<inter> s = {}"
  shows "rows_out ms i rows s = []"
  using assms
proof (induction rows arbitrary: i s)
  case Nil
  show ?case by simp
next
  case (Cons row rows)
  from Cons.prems(1) have c: "complete row" by simp
  then obtain a b d where row: "row = [a, b, d]" using complete_length length3_cases by blast
  from c row have ne: "a \<noteq> []" "b \<noteq> []" "d \<noteq> []" by simp_all
  from Cons.prems(2) row have ok: "b \<in> ms" "startswith d ''/''" by simp_all
  from Cons.prems(4) row have fresh: "a \<notin> s" by simp
  have first: "fst (check_row ms i row ([], s)) = []"
    unfolding row check_row_triple using ne ok fresh by simp
  have "set (map hd rows) \<inter> insert a s = {}"
    using Cons.prems(3,4) row by auto
  with Cons.prems have rest: "rows_out ms (Suc i) rows (insert a s) = []"
    by (intro Cons.IH) simp_all
  show ?case
    unfolding rows_out_Cons first using c row rest by simp
qed

lemma collected_complete: "list_all complete rows \<Longrightarrow> collected rows = set (map hd rows)"
  by (induction rows) auto

lemma collected_append: "collected (xs @ ys) = collected xs \<union> collected ys"
  by (simp add: collected_def)

lemma empty_cell_incomplete: "[] \<in> set row \<Longrightarrow> \<not> complete row"
  by (auto simp add: complete_def list_all_iff)

lemma collected_skips_incomplete:
  assumes "2 \<le> k" and "k \<le> length sd" and "\<not> complete (sd ! (k - 1))"
  shows "collected (take (k - 1) (drop 1 sd)) = collected (take (k - 2) (drop 1 sd))"
proof -
  let ?rows = "drop 1 sd"
  from assms(1,2) have m: "k - 2 < length ?rows" by simp
  from assms(1) have "k - 1 = Suc (k - 2)" by simp
  then have "take (k - 1) ?rows = take (k - 2) ?rows @ [?rows ! (k - 2)]"
    using take_Suc_conv_app_nth [OF m] by simp
  also have "?rows ! (k - 2) = sd ! (k - 1)"
    using assms(1,2) by (rule nth_data_row)
  finally show ?thesis
    using assms(3) by (simp add: collected_append del: drop_Suc_Cons One_nat_def)
qed

subsection \<open>The body of the try statement\<close>

lemma first_cells_Inr:
  "list_all (\<lambda>row. row \<noteq> []) rows \<Longrightarrow> first_cells rows = Inr (set (map hd rows))"
  by (induction rows) (auto split: list.split)

lemma first_cells_Inl:
  "\<not> list_all (\<lambda>row. row \<noteq> []) rows \<Longrightarrow> first_cells rows = Inl ''list index out of range''"
  by (induction rows) (auto split: list.split sum.split)

lemma try_body_read_fails:
  assumes "read_csv w sp = Inl e \<or> (\<exists>sd. read_csv w sp = Inr sd) \<and> read_csv w (test_path v) = Inl e"
  shows "try_body w v sp rs = (rs, Some e)"
  using assms by (auto simp add: try_body_def)

lemma try_body_empty:
  assumes "read_csv w sp = Inr []" and "read_csv w (test_path v) = Inr td"
  shows "try_body w v sp rs =
           (rs @ [(''Proverka struktury fajla'', False, Some ''Fajl submission.csv pust'')], None)"
  unfolding try_body_def assms sum.case by simp

lemma try_body_bad_width:
  assumes "read_csv w sp = Inr sd" and "read_csv w (test_path v) = Inr td"
    and "sd \<noteq> []" and "\<not> list_all (\<lambda>row. length row = 3) sd"
  shows "try_body w v sp rs =
          (rs @ [(''Proverka struktury fajla'', False,
                  Some ''Nekorrektnaya struktura fajla: ozhidaetsya 3 kolonki (uid;type;request)'')],
           None)"
  unfolding try_body_def assms(1,2) sum.case using assms(3,4) by simp

lemma try_body_index_error:
  assumes "read_csv w sp = Inr sd" and "read_csv w (test_path v) = Inr td"
    and "sd \<noteq> []" and "list_all (\<lambda>row. length row = 3) sd"
    and "\<not> list_all (\<lambda>row. row \<noteq> []) (drop 1 td)"
  shows "try_body w v sp rs =
          (rs @ [(''Proverka struktury fajla'', True, None)], Some ''list index out of range'')"
  unfolding try_body_def assms(1,2) sum.case first_cells_Inl [OF assms(5)] Let_def
  using assms(3,4) by simp

lemma try_body_reaches:
  assumes "read_csv w sp = Inr sd" and "read_csv w (test_path v) = Inr td"
    and "sd \<noteq> []" and "list_all (\<lambda>row. length row = 3) sd"
    and "list_all (\<lambda>row. row \<noteq> []) (drop 1 td)"
  shows "try_body w v sp rs =
     (rs @ [(''Proverka struktury fajla'', True, None)] @
        rows_out (valid_methods v) 2 (drop 1 sd) {} @
        [if length (drop 1 sd) = card (set (map hd (drop 1 td))) then
           (''Proverka sootvetstviya kolichestva strok'', True, None)
         else
           (''Proverka sootvetstviya kolichestva strok'', False,
            Some (''Nekorrektnoe kolichestvo strok: ozhidaetsya '' @
                  str_nat (card (set (map hd (drop 1 td)))) @ '', najdeno '' @
                  str_nat (length (drop 1 sd)))),
         if set (map hd (drop 1 td)) - collected (drop 1 sd) = {} then
           (''Proverka nalichiya vseh uid iz test.csv'', True, None)
         else
           (''Proverka nalichiya vseh uid iz test.csv'', False,
            Some (''Otsutstvuyut zapisi dlya uid: '' @
                  listing (set (map hd (drop 1 td)) - collected (drop 1 sd)))),
         if collected (drop 1 sd) - set (map hd (drop 1 td)) = {} then
           (''Proverka otsutstviya lishnih uid'', True, None)
         else
           (''Proverka otsutstviya lishnih uid'', False,
            Some (''Obnaruzheny lishnie uid, otsutstvuyushchie v test.csv: '' @
                  listing (collected (drop 1 sd) - set (map hd (drop 1 td)))))],
      None)"
proof -
  have fc: "first_cells (drop 1 td) = Inr (set (map hd (drop 1 td)))"
    using assms(5) by (rule first_cells_Inr)
  have ia: "(if c then xs @ [a] else xs @ [b]) = xs @ [if c then a else b]"
    for c and xs :: "check_result list" and a b
    by simp
  have ni: "(if \<not> c then a else b) = (if c then b else a)" for c and a b :: check_result
    by simp
  show ?thesis
    unfolding try_body_def assms(1,2) fc rows_loop_eq0 Let_def sum.case prod.case ni ia
    using assms(3,4) by (simp split del: if_split)
qed

lemma try_body_consistent:
  "\<exists>out e. try_body w v sp rs = (rs @ out, e) \<and> list_all consistent out"
proof (cases "read_csv w sp")
  case (Inl e)
  then show ?thesis using try_body_read_fails [of w sp e v rs] by simp
next
  case sd: (Inr sd)
  show ?thesis
  proof (cases "read_csv w (test_path v)")
    case (Inl e)
    then show ?thesis using sd try_body_read_fails [of w sp e v rs] by simp
  next
    case td: (Inr td)
    show ?thesis
    proof (cases "sd = []")
      case True
      then show ?thesis using try_body_empty [of w sp v td rs] sd td by simp
    next
      case ne: False
      show ?thesis
      proof (cases "list_all (\<lambda>row. length row = 3) sd")
        case False
        then show ?thesis using try_body_bad_width [OF sd td ne, of rs] by simp
      next
        case w3: True
        show ?thesis
        proof (cases "list_all (\<lambda>row. row \<noteq> []) (drop 1 td)")
          case False
          then show ?thesis using try_body_index_error [OF sd td ne w3, of rs] by simp
        next
          case True
          show ?thesis
            unfolding try_body_reaches [OF sd td ne w3 True, of rs]
            by (simp add: rows_out_consistent)
        qed
      qed
    qed
  qed
qed

subsection \<open>Whole runs\<close>

lemma run_after_existence:
  assumes "submission_path v = Some sp" and "path_exists w sp = Inr True"
    and "path_exists w (test_path v) = Inr True"
  shows "run_all_validations w v =
     (case try_body w v sp [(''Proverka nalichiya submission fajla'', True, None),
                            (''Proverka nalichiya test fajla'', True, None)] of
        (results, None) \<Rightarrow> Inr results
      | (results, Some e) \<Rightarrow>
          Inr (results @ [(''Proverka obrabotki fajlov'', False,
                           Some (''Oshibka pri obrabotke fajlov: '' @ e))]))"
  using assms by (simp add: run_all_validations_def split: prod.split option.split)

lemma run_reaches_row_checks:
  assumes "reaches_row_checks w v sd td"
  shows "run_all_validations w v =
     Inr ([(''Proverka nalichiya submission fajla'', True, None),
           (''Proverka nalichiya test fajla'', True, None),
           (''Proverka struktury fajla'', True, None)] @
          rows_out (valid_methods v) 2 (drop 1 sd) {} @
          [if length (drop 1 sd) = card (set (map hd (drop 1 td))) then
           (''Proverka sootvetstviya kolichestva strok'', True, None)
         else
           (''Proverka sootvetstviya kolichestva strok'', False,
            Some (''Nekorrektnoe kolichestvo strok: ozhidaetsya '' @
                  str_nat (card (set (map hd (drop 1 td)))) @ '', najdeno '' @
                  str_nat (length (drop 1 sd)))),
         if set (map hd (drop 1 td)) - collected (drop 1 sd) = {} then
           (''Proverka nalichiya vseh uid iz test.csv'', True, None)
         else
           (''Proverka nalichiya vseh uid iz test.csv'', False,
            Some (''Otsutstvuyut zapisi dlya uid: '' @
                  listing (set (map hd (drop 1 td)) - collected (drop 1 sd)))),
         if collected (drop 1 sd) - set (map hd (drop 1 td)) = {} then
           (''Proverka otsutstviya lishnih uid'', True, None)
         else
           (''Proverka otsutstviya lishnih uid'', False,
            Some (''Obnaruzheny lishnie uid, otsutstvuyushchie v test.csv: '' @
                  listing (collected (drop 1 sd) - set (map hd (drop 1 td)))))])"
proof -
  from assms obtain sp where sp: "submission_path v = Some sp"
    and ex: "path_exists w sp = Inr True" "path_exists w (test_path v) = Inr True"
    and rd: "read_csv w sp = Inr sd" "read_csv w (test_path v) = Inr td"
    and st: "sd \<noteq> []" "list_all (\<lambda>row. length row = 3) sd"
    and tt: "list_all (\<lambda>row. row \<noteq> []) (drop 1 td)"
    by (auto simp add: reaches_row_checks_def split: option.splits)
  show ?thesis
    unfolding run_after_existence [OF sp ex] try_body_reaches [OF rd st tt] prod.case option.case
    by (simp split del: if_split)
qed

lemma run_uniqueness:
  assumes "reaches_row_checks w v sd td"
  shows "\<exists>rs. run_all_validations w v = Inr rs \<and>
     filter is_uniqueness rs =
       map (\<lambda>(i, row). uniqueness_failure i (hd row))
         (filter (\<lambda>(i, row). complete row \<and> hd row \<in> collected (take (i - 2) (drop 1 sd)))
            (enumerate 2 (drop 1 sd)))"
proof -
  have a: "\<not> is_uniqueness (if c then (''Proverka sootvetstviya kolichestva strok'', x)
                                 else (''Proverka sootvetstviya kolichestva strok'', y))"
    "\<not> is_uniqueness (if c then (''Proverka nalichiya vseh uid iz test.csv'', x)
                        else (''Proverka nalichiya vseh uid iz test.csv'', y))"
    "\<not> is_uniqueness (if c then (''Proverka otsutstviya lishnih uid'', x)
                        else (''Proverka otsutstviya lishnih uid'', y))"
    "\<not> is_uniqueness (''Proverka nalichiya submission fajla'', x)"
    "\<not> is_uniqueness (''Proverka nalichiya test fajla'', x)"
    "\<not> is_uniqueness (''Proverka struktury fajla'', x)"
    for c x y
    by (simp_all add: is_uniqueness_def name_def startswith_def)
  show ?thesis
    unfolding run_reaches_row_checks [OF assms]
    by (simp add: a rows_out_uniqueness split del: if_split)
qed

lemma uniqueness_membership:
  assumes "reaches_row_checks w v sd td" and run: "run_all_validations w v = Inr rs"
  shows "(uniqueness_failure i u \<in> set rs) =
        (2 \<le> i \<and> i \<le> length sd \<and> complete (sd ! (i - 1)) \<and> hd (sd ! (i - 1)) = u \<and>
         u \<in> collected (take (i - 2) (drop 1 sd)))"
proof -
  from run_uniqueness [OF assms(1)] run have
    flt: "filter is_uniqueness rs =
       map (\<lambda>(i, row). uniqueness_failure i (hd row))
         (filter (\<lambda>(i, row). complete row \<and> hd row \<in> collected (take (i - 2) (drop 1 sd)))
            (enumerate 2 (drop 1 sd)))"
    by simp
  have "(uniqueness_failure i u \<in> set rs) = (uniqueness_failure i u \<in> set (filter is_uniqueness rs))"
    using is_uniqueness_failure [of i u] by simp
  also have "\<dots> = (\<exists>p \<in> set (enumerate 2 (drop 1 sd)).
               (complete (snd p) \<and> hd (snd p) \<in> collected (take (fst p - 2) (drop 1 sd))) \<and>
               fst p = i \<and> hd (snd p) = u)"
  proof -
    define f where "f = (\<lambda>p :: nat \<times> string list. uniqueness_failure (fst p) (hd (snd p)))"
    define P where "P = (\<lambda>p :: nat \<times> string list.
      complete (snd p) \<and> hd (snd p) \<in> collected (take (fst p - 2) (drop 1 sd)))"
    have fe: "(f p = uniqueness_failure i u) = (fst p = i \<and> hd (snd p) = u)" for p
      unfolding f_def by (rule uniqueness_failure_eq)
    have "filter is_uniqueness rs = map f (filter P (enumerate 2 (drop 1 sd)))"
      unfolding flt f_def P_def case_prod_unfold ..
    then have "(uniqueness_failure i u \<in> set (filter is_uniqueness rs)) =
               (\<exists>p \<in> set (enumerate 2 (drop 1 sd)). P p \<and> f p = uniqueness_failure i u)"
      by (simp only: mem_map_filter)
    then show ?thesis unfolding fe P_def .
  qed
  also have "\<dots> = (2 \<le> i \<and> i \<le> length sd \<and> complete (sd ! (i - 1)) \<and> hd (sd ! (i - 1)) = u \<and>
       u \<in> collected (take (i - 2) (drop 1 sd)))"
    unfolding in_set_enumerate_eq Bex_def
    using nth_data_row [of i sd]
    by (cases "2 \<le> i \<and> i \<le> length sd") (auto simp del: drop_Suc_Cons)
  finally show ?thesis .
qed

subsection \<open>The example environments\<close>

lemma reaches_scenario_a:
  "reaches_row_checks scenario_a_world (init scenario_a_world ''t.csv'' (Some ''s.csv''))
     [[''uid'', ''type'', ''request''], [''1'', ''GET'', ''/a''], [''2'', ''POST'', ''/b'']]
     [[''uid'', ''question''], [''1'', ''x''], [''2'', ''y''], [''3'', ''z'']]"
  by (simp add: reaches_row_checks_def init_def scenario_a_world_def world_of_def read_csv_def
        strip_def isspace_def)

lemma run_scenario_a:
  "run_all_validations scenario_a_world (init scenario_a_world ''t.csv'' (Some ''s.csv'')) =
     Inr [(''Proverka nalichiya submission fajla'', True, None),
          (''Proverka nalichiya test fajla'', True, None),
          (''Proverka struktury fajla'', True, None),
          (''Proverka sootvetstviya kolichestva strok'', False,
           Some ''Nekorrektnoe kolichestvo strok: ozhidaetsya 3, najdeno 2''),
          (''Proverka nalichiya vseh uid iz test.csv'', False,
           Some ''Otsutstvuyut zapisi dlya uid: 3''),
          (''Proverka otsutstviya lishnih uid'', True, None)]"
  by (simp add: run_all_validations_def try_body_def init_def scenario_a_world_def world_of_def
        read_csv_def strip_def isspace_def check_row_def startswith_def listing_def
        str_nat.simps digit_char_def Let_def)

lemma reaches_many_missing:
  "reaches_row_checks many_missing_world (init many_missing_world ''t.csv'' (Some ''s.csv''))
     [[''uid'', ''type'', ''request''], [''x'', ''GET'', ''/a'']]
     [[''uid''], [''g''], [''c''], [''a''], [''f''], [''b''], [''e''], [''d'']]"
  by (simp add: reaches_row_checks_def init_def many_missing_world_def world_of_def read_csv_def
        strip_def isspace_def)

lemma many_missing_sets:
  "set (map hd (drop 1 [[''uid''], [''g''], [''c''], [''a''], [''f''], [''b''], [''e''], [''d'']])) -
     collected (drop 1 [[''uid'', ''type'', ''request''], [''x'', ''GET'', ''/a'']]) =
   {''g'', ''c'', ''a'', ''f'', ''b'', ''e'', ''d''}"
  "collected (drop 1 [[''uid'', ''type'', ''request''], [''x'', ''GET'', ''/a'']]) -
     set (map hd (drop 1 [[''uid''], [''g''], [''c''], [''a''], [''f''], [''b''], [''e''], [''d'']])) =
   {''x''}"
  by (auto simp add: collected_def)

lemma many_missing_listing:
  "take 5 (sorted_list_of_set {''g'', ''c'', ''a'', ''f'', ''b'', ''e'', ''d''}) =
     [''a'', ''b'', ''c'', ''d'', ''e'']"
  "card {''g'', ''c'', ''a'', ''f'', ''b'', ''e'', ''d''} = 7"
  "sorted_list_of_set {''x''} = [''x'']"
  by simp_all

lemma reaches_duplicates:
  "reaches_row_checks duplicates_world (init duplicates_world ''t.csv'' (Some ''s.csv''))
     [[''uid'', ''type'', ''request''], [''1'', ''GET'', ''/a''], [''2'', ''GET'', ''/b''],
      [''1'', ''POST'', ''/c''], [''1'', [], ''/d''], [''1'', ''PUT'', ''/e'']]
     [[''uid''], [''1''], [''2'']]"
  by (simp add: reaches_row_checks_def init_def duplicates_world_def world_of_def read_csv_def
        strip_def isspace_def)

lemma valid_blank_reference:
  "valid_input_pair blank_reference_world (init blank_reference_world ''t.csv'' (Some ''s.csv''))
     [[''uid'', ''type'', ''request''], [''1'', ''GET'', ''/a'']]
     [[''uid''], [], [''1'']]"
  by (simp add: valid_input_pair_def init_def blank_reference_world_def world_of_def read_csv_def
        strip_def isspace_def startswith_def)

lemma valid_scenario_b:
  "valid_input_pair scenario_b_world (init scenario_b_world ''t.csv'' (Some ''s.csv''))
     [[''uid'', ''type'', ''request''], [''u1'', ''GET'', ''/api/x'']]
     [[''uid''], [''u1'']]"
  by (simp add: valid_input_pair_def init_def scenario_b_world_def world_of_def read_csv_def
        strip_def isspace_def startswith_def)

lemma reaches_incomplete_only:
  "reaches_row_checks incomplete_only_world (init incomplete_only_world ''t.csv'' (Some ''s.csv''))
     [[''uid'', ''type'', ''request''], [''1'', ''GET'', ''/a''], [''2'', [], ''/b''],
      [''2'', ''GET'', []]]
     [[''uid''], [''1''], [''2'']]"
  by (simp add: reaches_row_checks_def init_def incomplete_only_world_def world_of_def
        read_csv_def strip_def isspace_def)

lemma reaches_incomplete_then_complete:
  "reaches_row_checks incomplete_then_complete_world
     (init incomplete_then_complete_world ''t.csv'' (Some ''s.csv''))
     [[''uid'', ''type'', ''request''], [''1'', ''GET'', ''/a''], [''1'', [], ''/b''],
      [''1'', ''GET'', ''/c'']]
     [[''uid''], [''1'']]"
  by (simp add: reaches_row_checks_def init_def incomplete_then_complete_world_def world_of_def
        read_csv_def strip_def isspace_def)

section \<open>Properties\<close>

text \<open>
  C1. A validator constructed with the submission path omitted stores no path, and
  \<open>run_all_validations\<close> does not return a result sequence for it: the existence test
  on the missing path raises \<open>AttributeError\<close> to the caller, in every environment
  and for every test path.
\<close>

theorem run_all_validations_unconfigured_raises:
  "run_all_validations w (init w test_path_arg None) =
     Inl (AttributeError (apostrophe @ ''NoneType'' @ apostrophe @
            '' object has no attribute '' @ apostrophe @ ''exists'' @ apostrophe))"
  by (simp add: run_all_validations_def init_def)




text \<open>
  C3. When both files are read and the submission table (header included) has a row
  whose number of cells is not 3, \<open>run_all_validations\<close> returns the two passing
  existence results followed by exactly one failing structure result, whose message
  names the shape \<open>uid;type;request\<close>, and nothing else: no per-row result and no
  aggregate result.
\<close>

theorem bad_row_width_short_circuits:
  assumes "submission_path v = Some sp" and "path_exists w sp = Inr True"
    and "path_exists w (test_path v) = Inr True"
    and "read_csv w sp = Inr sd" and "read_csv w (test_path v) = Inr td"
    and "row \<in> set sd" and "length row \<noteq> 3"
  shows "run_all_validations w v =
     Inr [(''Proverka nalichiya submission fajla'', True, None),
          (''Proverka nalichiya test fajla'', True, None),
          (''Proverka struktury fajla'', False,
           Some ''Nekorrektnaya struktura fajla: ozhidaetsya 3 kolonki (uid;type;request)'')]"
proof -
  from assms(6) have ne: "sd \<noteq> []" by auto
  from assms(6,7) have na: "\<not> list_all (\<lambda>row. length row = 3) sd"
    by (auto simp add: list_all_iff)
  have "try_body w v sp rs =
          (rs @ [(''Proverka struktury fajla'', False,
                  Some ''Nekorrektnaya struktura fajla: ozhidaetsya 3 kolonki (uid;type;request)'')],
           None)" for rs
    unfolding try_body_def assms(4,5) sum.case using ne na by simp
  then show ?thesis
    unfolding run_after_existence [OF assms(1-3)] by simp
qed

theorem bad_row_width_short_circuits_witness:
  "submission_path (init short_row_world ''t.csv'' (Some ''s.csv'')) = Some ''s.csv'' \<and>
   path_exists short_row_world ''s.csv'' = Inr True \<and>
   path_exists short_row_world (test_path (init short_row_world ''t.csv'' (Some ''s.csv''))) =
     Inr True \<and>
   read_csv short_row_world ''s.csv'' = Inr [[''uid'', ''type'', ''request''], [''1'', ''GET'']] \<and>
   read_csv short_row_world (test_path (init short_row_world ''t.csv'' (Some ''s.csv''))) =
     Inr [[''uid''], [''1'']] \<and>
   [''1'', ''GET''] \<in> set [[''uid'', ''type'', ''request''], [''1'', ''GET'']] \<and>
   length [''1'', ''GET''] \<noteq> 3 \<and>
   run_all_validations short_row_world (init short_row_world ''t.csv'' (Some ''s.csv'')) =
     Inr [(''Proverka nalichiya submission fajla'', True, None),
          (''Proverka nalichiya test fajla'', True, None),
          (''Proverka struktury fajla'', False,
           Some ''Nekorrektnaya struktura fajla: ozhidaetsya 3 kolonki (uid;type;request)'')]"
proof -
  let ?v = "init short_row_world ''t.csv'' (Some ''s.csv'')"
  have h1: "submission_path ?v = Some ''s.csv''"
    by (simp add: init_def short_row_world_def world_of_def)
  have h2: "path_exists short_row_world ''s.csv'' = Inr True"
    by (simp add: short_row_world_def world_of_def)
  have h3: "path_exists short_row_world (test_path ?v) = Inr True"
    by (simp add: init_def short_row_world_def world_of_def)
  have h4: "read_csv short_row_world ''s.csv'' = Inr [[''uid'', ''type'', ''request''], [''1'', ''GET'']]"
    by (simp add: read_csv_def short_row_world_def world_of_def strip_def isspace_def)
  have h5: "read_csv short_row_world (test_path ?v) = Inr [[''uid''], [''1'']]"
    by (simp add: read_csv_def init_def short_row_world_def world_of_def strip_def isspace_def)
  have h6: "[''1'', ''GET''] \<in> set [[''uid'', ''type'', ''request''], [''1'', ''GET'']]" by simp
  have h7: "length [''1'', ''GET''] \<noteq> 3" by simp
  from h1 h2 h3 h4 h5 h6 h7 bad_row_width_short_circuits [OF h1 h2 h3 h4 h5 h6 h7] show ?thesis by blast
qed

text \<open>
  C4. In every run that reaches the per-row loop, the uniqueness results of the output
  are, in order, exactly one failing result for each data row that has three non-empty
  cells and whose uid is carried by an earlier data row with three non-empty cells (an
  occurrence beyond the first), tagged with the number \<open>i\<close> of that later row, where
  the header is row 1 and row \<open>i\<close> is \<open>sd ! (i - 1)\<close>. Hence a uniqueness failure
  tagged \<open>i\<close> for uid \<open>u\<close> is in the output iff row \<open>i\<close> is such a later occurrence
  of \<open>u\<close>: the row of a first occurrence is never the tag, and a third occurrence is
  flagged like the second.
\<close>

theorem duplicate_uids_flagged:
  assumes "reaches_row_checks w v sd td"
  shows "\<exists>rs. run_all_validations w v = Inr rs \<and>
     filter is_uniqueness rs =
       map (\<lambda>(i, row). uniqueness_failure i (hd row))
         (filter (\<lambda>(i, row). complete row \<and> hd row \<in> collected (take (i - 2) (drop 1 sd)))
            (enumerate 2 (drop 1 sd))) \<and>
     (\<forall>i u. (uniqueness_failure i u \<in> set rs) =
        (2 \<le> i \<and> i \<le> length sd \<and> complete (sd ! (i - 1)) \<and> hd (sd ! (i - 1)) = u \<and>
         u \<in> collected (take (i - 2) (drop 1 sd))))"
proof -
  from run_uniqueness [OF assms] obtain rs where
    run: "run_all_validations w v = Inr rs" and
    flt: "filter is_uniqueness rs =
       map (\<lambda>(i, row). uniqueness_failure i (hd row))
         (filter (\<lambda>(i, row). complete row \<and> hd row \<in> collected (take (i - 2) (drop 1 sd)))
            (enumerate 2 (drop 1 sd)))"
    by blast
  from run flt uniqueness_membership [OF assms run] show ?thesis by blast
qed

theorem duplicate_uids_flagged_witness:
  "reaches_row_checks duplicates_world (init duplicates_world ''t.csv'' (Some ''s.csv''))
     [[''uid'', ''type'', ''request''], [''1'', ''GET'', ''/a''], [''2'', ''GET'', ''/b''],
      [''1'', ''POST'', ''/c''], [''1'', [], ''/d''], [''1'', ''PUT'', ''/e'']]
     [[''uid''], [''1''], [''2'']] \<and>
   (\<exists>rs. run_all_validations duplicates_world (init duplicates_world ''t.csv'' (Some ''s.csv'')) =
           Inr rs \<and>
         filter is_uniqueness rs = [uniqueness_failure 4 ''1'', uniqueness_failure 6 ''1''])"
proof -
  from duplicate_uids_flagged [OF reaches_duplicates] obtain rs where
    "run_all_validations duplicates_world (init duplicates_world ''t.csv'' (Some ''s.csv'')) = Inr rs"
    and "filter is_uniqueness rs =
       map (\<lambda>(i, row). uniqueness_failure i (hd row))
         (filter (\<lambda>(i, row). complete row \<and> hd row \<in> collected (take (i - 2) (drop 1
            [[''uid'', ''type'', ''request''], [''1'', ''GET'', ''/a''], [''2'', ''GET'', ''/b''],
             [''1'', ''POST'', ''/c''], [''1'', [], ''/d''], [''1'', ''PUT'', ''/e'']])))
            (enumerate 2 (drop 1
            [[''uid'', ''type'', ''request''], [''1'', ''GET'', ''/a''], [''2'', ''GET'', ''/b''],
             [''1'', ''POST'', ''/c''], [''1'', [], ''/d''], [''1'', ''PUT'', ''/e'']])))"
    by blast
  then have "\<exists>rs. run_all_validations duplicates_world (init duplicates_world ''t.csv'' (Some ''s.csv'')) =
           Inr rs \<and>
         filter is_uniqueness rs = [uniqueness_failure 4 ''1'', uniqueness_failure 6 ''1'']"
    by simp
  with reaches_duplicates show ?thesis by blast
qed

text \<open>
  C5. When both files exist and reading one of them fails with the message \<open>e\<close> (the
  submission file, or the reference file after the submission file was read),
  \<open>run_all_validations\<close> returns the two passing existence results accumulated before
  the failure, followed by exactly one failing file-processing result whose detail
  embeds the reader's message for the failing path \<open>p\<close>, which ends with \<open>e\<close>.
\<close>

theorem read_failure_reported:
  assumes "submission_path v = Some sp" and "path_exists w sp = Inr True"
    and "path_exists w (test_path v) = Inr True"
    and "open_csv w sp = Inl e \<and> p = sp \<or>
         (\<exists>rows. open_csv w sp = Inr rows) \<and> open_csv w (test_path v) = Inl e \<and> p = test_path v"
  shows "run_all_validations w v =
     Inr [(''Proverka nalichiya submission fajla'', True, None),
          (''Proverka nalichiya test fajla'', True, None),
          (''Proverka obrabotki fajlov'', False,
           Some (''Oshibka pri obrabotke fajlov: '' @
                 ''Ne udalos prochitat fajl '' @ p @ '': '' @ e))]"
proof -
  have "try_body w v sp rs = (rs, Some (''Ne udalos prochitat fajl '' @ p @ '': '' @ e))" for rs
    using assms(4) by (auto simp add: try_body_def read_csv_def)
  then show ?thesis
    unfolding run_after_existence [OF assms(1-3)] by simp
qed

theorem read_failure_reported_witness:
  "submission_path (init unreadable_world ''t.csv'' (Some ''s.csv'')) = Some ''s.csv'' \<and>
   path_exists unreadable_world ''s.csv'' = Inr True \<and>
   path_exists unreadable_world (test_path (init unreadable_world ''t.csv'' (Some ''s.csv''))) =
     Inr True \<and>
   open_csv unreadable_world ''s.csv'' =
     Inr [[''uid'', ''type'', ''request''], [''1'', ''GET'', ''/a'']] \<and>
   open_csv unreadable_world (test_path (init unreadable_world ''t.csv'' (Some ''s.csv''))) =
     Inl ''Permission denied'' \<and>
   test_path (init unreadable_world ''t.csv'' (Some ''s.csv'')) = ''/repo/t.csv'' \<and>
   run_all_validations unreadable_world (init unreadable_world ''t.csv'' (Some ''s.csv'')) =
     Inr [(''Proverka nalichiya submission fajla'', True, None),
          (''Proverka nalichiya test fajla'', True, None),
          (''Proverka obrabotki fajlov'', False,
           Some ''Oshibka pri obrabotke fajlov: Ne udalos prochitat fajl /repo/t.csv: Permission denied'')]"
proof -
  let ?v = "init unreadable_world ''t.csv'' (Some ''s.csv'')"
  have h1: "submission_path ?v = Some ''s.csv''"
    by (simp add: init_def unreadable_world_def world_of_def)
  have h2: "path_exists unreadable_world ''s.csv'' = Inr True"
    by (simp add: unreadable_world_def world_of_def)
  have h3: "path_exists unreadable_world (test_path ?v) = Inr True"
    by (simp add: init_def unreadable_world_def world_of_def)
  have h4: "open_csv unreadable_world ''s.csv'' =
              Inr [[''uid'', ''type'', ''request''], [''1'', ''GET'', ''/a'']]"
    by (simp add: unreadable_world_def world_of_def)
  have h5: "open_csv unreadable_world (test_path ?v) = Inl ''Permission denied''"
    by (simp add: init_def unreadable_world_def world_of_def)
  have h6: "test_path ?v = ''/repo/t.csv''"
    by (simp add: init_def unreadable_world_def world_of_def)
  have d: "open_csv unreadable_world ''s.csv'' = Inl ''Permission denied'' \<and> ''/repo/t.csv'' = ''s.csv'' \<or>
         (\<exists>rows. open_csv unreadable_world ''s.csv'' = Inr rows) \<and>
         open_csv unreadable_world (test_path ?v) = Inl ''Permission denied'' \<and>
         ''/repo/t.csv'' = test_path ?v"
    using h4 h5 h6 by simp
  from read_failure_reported [OF h1 h2 h3 d] have "run_all_validations unreadable_world ?v =
     Inr [(''Proverka nalichiya submission fajla'', True, None),
          (''Proverka nalichiya test fajla'', True, None),
          (''Proverka obrabotki fajlov'', False,
           Some ''Oshibka pri obrabotke fajlov: Ne udalos prochitat fajl /repo/t.csv: Permission denied'')]"
    by simp
  with h1 h2 h3 h4 h5 h6 show ?thesis by blast
qed

text \<open>
  C6, as the code has it. For every valid input pair whose reference data rows all have
  at least one cell, \<open>run_all_validations\<close> returns exactly the six passing results:
  the two existence checks, the structure check, the row count, the coverage and the
  extras check. The per-row loop adds nothing.
\<close>

theorem valid_input_all_pass:
  assumes valid: "valid_input_pair w v sd td"
    and filled: "list_all (\<lambda>row. row \<noteq> []) (drop 1 td)"
  shows "run_all_validations w v =
     Inr [(''Proverka nalichiya submission fajla'', True, None),
          (''Proverka nalichiya test fajla'', True, None),
          (''Proverka struktury fajla'', True, None),
          (''Proverka sootvetstviya kolichestva strok'', True, None),
          (''Proverka nalichiya vseh uid iz test.csv'', True, None),
          (''Proverka otsutstviya lishnih uid'', True, None)]"
proof -
  let ?rows = "drop 1 sd"
  let ?uids = "map hd ?rows"
  let ?ref = "map hd (drop 1 td)"
  from valid obtain sp where sp: "submission_path v = Some sp"
    by (cases "submission_path v") (simp_all add: valid_input_pair_def)
  from valid [unfolded valid_input_pair_def sp option.case Let_def] have
    ex: "path_exists w sp = Inr True" "path_exists w (test_path v) = Inr True" and
    rd: "read_csv w sp = Inr sd" "read_csv w (test_path v) = Inr td" and
    ne: "sd \<noteq> []" and
    cells: "list_all (\<lambda>row. length row = 3 \<and> list_all (\<lambda>c. c \<noteq> []) row) sd" and
    once: "list_all (\<lambda>u. count_list ?uids u = 1)
             (map hd (filter (\<lambda>row. row \<noteq> []) (drop 1 td)))" and
    known: "list_all (\<lambda>u. u \<in> set (map hd (filter (\<lambda>row. row \<noteq> []) (drop 1 td)))) ?uids" and
    good: "list_all (\<lambda>row. row ! 1 \<in> valid_methods v \<and> startswith (row ! 2) ''/'') ?rows"
    by blast+
  from filled have flt: "filter (\<lambda>row. row \<noteq> []) (drop 1 td) = drop 1 td"
    by (simp add: list_all_iff del: drop_Suc_Cons One_nat_def)
  from cells have w3: "list_all (\<lambda>row. length row = 3) sd"
    by (simp add: list_all_iff)
  have reach: "reaches_row_checks w v sd td"
    using sp ex rd ne w3 filled by (simp add: reaches_row_checks_def)
  from cells have "list_all complete sd"
    by (simp add: list_all_iff complete_def)
  then have comp: "list_all complete ?rows"
    unfolding list_all_iff using in_set_dropD by fast
  from once have once': "\<forall>u\<in>set ?ref. count_list ?uids u = 1"
    unfolding flt list_all_iff .
  from known have known': "set ?uids \<subseteq> set ?ref"
    unfolding flt list_all_iff by blast
  have "set ?ref \<subseteq> set ?uids"
  proof
    fix u assume "u \<in> set ?ref"
    with once' have "count_list ?uids u = 1" by (rule bspec)
    then have "count_list ?uids u \<noteq> 0" by (simp del: drop_Suc_Cons One_nat_def)
    then show "u \<in> set ?uids" by (simp add: count_list_0_iff)
  qed
  with known' have same: "set ?uids = set ?ref" by blast
  from once' known' have "\<forall>u\<in>set ?uids. count_list ?uids u = 1" by blast
  then have dist: "distinct ?uids" by (rule count_one_distinct)
  have col: "collected ?rows = set ?ref"
    using collected_complete [OF comp] same by simp
  have len: "length ?rows = card (set ?ref)"
    using distinct_card [OF dist] same by simp
  have none: "rows_out (valid_methods v) 2 ?rows {} = []"
    using comp good dist by (intro rows_out_valid) simp_all
  show ?thesis
    unfolding run_reaches_row_checks [OF reach] none col len by simp
qed

theorem valid_input_all_pass_witness:
  "valid_input_pair scenario_b_world (init scenario_b_world ''t.csv'' (Some ''s.csv''))
     [[''uid'', ''type'', ''request''], [''u1'', ''GET'', ''/api/x'']]
     [[''uid''], [''u1'']] \<and>
   list_all (\<lambda>row. row \<noteq> []) (drop 1 [[''uid''], [''u1'']]) \<and>
   run_all_validations scenario_b_world (init scenario_b_world ''t.csv'' (Some ''s.csv'')) =
     Inr [(''Proverka nalichiya submission fajla'', True, None),
          (''Proverka nalichiya test fajla'', True, None),
          (''Proverka struktury fajla'', True, None),
          (''Proverka sootvetstviya kolichestva strok'', True, None),
          (''Proverka nalichiya vseh uid iz test.csv'', True, None),
          (''Proverka otsutstviya lishnih uid'', True, None)]"
proof -
  have f: "list_all (\<lambda>row. row \<noteq> []) (drop 1 [[''uid''], [''u1'']])" by simp
  from valid_scenario_b f valid_input_all_pass [OF valid_scenario_b f] show ?thesis by blast
qed

text \<open>
  C6 as stated fails on a reference file with a blank line, for which \<open>csv.reader\<close>
  gives an empty row: \<open>row[0]\<close> raises \<open>IndexError\<close> in the set comprehension, the
  \<open>try\<close> catches it, and the run ends with a failing file-processing result, although
  the pair meets every condition the claim lists.
\<close>

theorem blank_reference_row_fails_valid_input:
  "valid_input_pair blank_reference_world (init blank_reference_world ''t.csv'' (Some ''s.csv''))
     [[''uid'', ''type'', ''request''], [''1'', ''GET'', ''/a'']]
     [[''uid''], [], [''1'']] \<and>
   run_all_validations blank_reference_world
       (init blank_reference_world ''t.csv'' (Some ''s.csv'')) =
     Inr [(''Proverka nalichiya submission fajla'', True, None),
          (''Proverka nalichiya test fajla'', True, None),
          (''Proverka struktury fajla'', True, None),
          (''Proverka obrabotki fajlov'', False,
           Some ''Oshibka pri obrabotke fajlov: list index out of range'')] \<and>
   \<not> passed (''Proverka obrabotki fajlov'', False,
              Some ''Oshibka pri obrabotke fajlov: list index out of range'')"
proof -
  have "run_all_validations blank_reference_world
       (init blank_reference_world ''t.csv'' (Some ''s.csv'')) =
     Inr [(''Proverka nalichiya submission fajla'', True, None),
          (''Proverka nalichiya test fajla'', True, None),
          (''Proverka struktury fajla'', True, None),
          (''Proverka obrabotki fajlov'', False,
           Some ''Oshibka pri obrabotke fajlov: list index out of range'')]"
    by (simp add: run_all_validations_def try_body_def init_def blank_reference_world_def
          world_of_def read_csv_def strip_def isspace_def Let_def)
  with valid_blank_reference show ?thesis by (simp add: passed_def)
qed

text \<open>
  C7. In every run that reaches the aggregate checks, the last two results are the
  coverage check and the extras check. The coverage check is over the reference uids
  that are not among the collected submission uids, the extras check over the collected
  submission uids that are not reference uids. Each passes iff its difference set is
  empty; on failure its detail lists the first 5 elements of the sorted difference set,
  joined by a comma and a space, followed by \<open>...\<close> iff the set has more than 5
  elements.
\<close>

theorem coverage_and_extras_checks:
  assumes "reaches_row_checks w v sd td"
  shows "let missing = set (map hd (drop 1 td)) - collected (drop 1 sd);
             extra = collected (drop 1 sd) - set (map hd (drop 1 td))
         in \<exists>pre. run_all_validations w v = Inr (pre @
              [if missing = {} then (''Proverka nalichiya vseh uid iz test.csv'', True, None)
               else (''Proverka nalichiya vseh uid iz test.csv'', False,
                     Some (''Otsutstvuyut zapisi dlya uid: '' @
                           join '', '' (take 5 (sorted_list_of_set missing)) @
                           (if 5 < card missing then ''...'' else ''''))),
               if extra = {} then (''Proverka otsutstviya lishnih uid'', True, None)
               else (''Proverka otsutstviya lishnih uid'', False,
                     Some (''Obnaruzheny lishnie uid, otsutstvuyushchie v test.csv: '' @
                           join '', '' (take 5 (sorted_list_of_set extra)) @
                           (if 5 < card extra then ''...'' else '''')))])"
proof -
  show ?thesis
    unfolding Let_def run_reaches_row_checks [OF assms] listing_def
    by (rule exI [where x = "[(''Proverka nalichiya submission fajla'', True, None),
           (''Proverka nalichiya test fajla'', True, None),
           (''Proverka struktury fajla'', True, None)] @
          rows_out (valid_methods v) 2 (drop 1 sd) {} @
          [if length (drop 1 sd) = card (set (map hd (drop 1 td))) then
             (''Proverka sootvetstviya kolichestva strok'', True, None)
           else (''Proverka sootvetstviya kolichestva strok'', False,
              Some (''Nekorrektnoe kolichestvo strok: ozhidaetsya '' @
                    str_nat (card (set (map hd (drop 1 td)))) @ '', najdeno '' @
                    str_nat (length (drop 1 sd))))]"])
       (simp split del: if_split)
qed

theorem coverage_and_extras_checks_witness:
  "reaches_row_checks many_missing_world (init many_missing_world ''t.csv'' (Some ''s.csv''))
     [[''uid'', ''type'', ''request''], [''x'', ''GET'', ''/a'']]
     [[''uid''], [''g''], [''c''], [''a''], [''f''], [''b''], [''e''], [''d'']] \<and>
   (\<exists>pre. run_all_validations many_missing_world
            (init many_missing_world ''t.csv'' (Some ''s.csv'')) =
      Inr (pre @
        [(''Proverka nalichiya vseh uid iz test.csv'', False,
          Some ''Otsutstvuyut zapisi dlya uid: a, b, c, d, e...''),
         (''Proverka otsutstviya lishnih uid'', False,
          Some ''Obnaruzheny lishnie uid, otsutstvuyushchie v test.csv: x'')]))"
proof -
  from coverage_and_extras_checks [OF reaches_many_missing]
  have "\<exists>pre. run_all_validations many_missing_world
            (init many_missing_world ''t.csv'' (Some ''s.csv'')) =
      Inr (pre @
        [(''Proverka nalichiya vseh uid iz test.csv'', False,
          Some ''Otsutstvuyut zapisi dlya uid: a, b, c, d, e...''),
         (''Proverka otsutstviya lishnih uid'', False,
          Some ''Obnaruzheny lishnie uid, otsutstvuyushchie v test.csv: x'')])"
    unfolding Let_def many_missing_sets many_missing_listing by simp
  with reaches_many_missing show ?thesis by blast
qed

text \<open>
  C8. In every run that reaches the aggregate checks, the third result from the end is
  the row-count check. It passes iff the number of submission data rows equals the
  number of distinct first cells of the reference data rows; on failure its detail
  gives the number of distinct reference uids as expected and the number of submission
  data rows as found.
\<close>

theorem row_count_check:
  assumes "reaches_row_checks w v sd td"
  shows "\<exists>pre coverage extras. run_all_validations w v = Inr (pre @
           [if length (drop 1 sd) = card (set (map hd (drop 1 td))) then
              (''Proverka sootvetstviya kolichestva strok'', True, None)
            else
              (''Proverka sootvetstviya kolichestva strok'', False,
               Some (''Nekorrektnoe kolichestvo strok: ozhidaetsya '' @
                     str_nat (card (set (map hd (drop 1 td)))) @ '', najdeno '' @
                     str_nat (length (drop 1 sd)))),
            coverage, extras])"
proof -
  show ?thesis
    unfolding run_reaches_row_checks [OF assms]
    by (intro exI [where x = "[(''Proverka nalichiya submission fajla'', True, None),
           (''Proverka nalichiya test fajla'', True, None),
           (''Proverka struktury fajla'', True, None)] @
          rows_out (valid_methods v) 2 (drop 1 sd) {}"] exI)
       (simp split del: if_split)
qed

theorem row_count_check_witness:
  "reaches_row_checks scenario_a_world (init scenario_a_world ''t.csv'' (Some ''s.csv''))
     [[''uid'', ''type'', ''request''], [''1'', ''GET'', ''/a''], [''2'', ''POST'', ''/b'']]
     [[''uid'', ''question''], [''1'', ''x''], [''2'', ''y''], [''3'', ''z'']] \<and>
   (\<exists>pre coverage extras.
      run_all_validations scenario_a_world (init scenario_a_world ''t.csv'' (Some ''s.csv'')) =
        Inr (pre @
          [(''Proverka sootvetstviya kolichestva strok'', False,
            Some ''Nekorrektnoe kolichestvo strok: ozhidaetsya 3, najdeno 2''),
           coverage, extras]))"
proof -
  have c: "card (set (map hd (drop 1 [[''uid'', ''question''], [''1'', ''x''], [''2'', ''y''], [''3'', ''z'']]))) = 3"
    "length (drop 1 [[''uid'', ''type'', ''request''], [''1'', ''GET'', ''/a''], [''2'', ''POST'', ''/b'']]) = 2"
    by simp_all
  have s: "str_nat 3 = ''3''" "str_nat 2 = ''2''"
    by (simp_all add: str_nat.simps digit_char_def)
  from row_count_check [OF reaches_scenario_a]
  have "\<exists>pre coverage extras.
      run_all_validations scenario_a_world (init scenario_a_world ''t.csv'' (Some ''s.csv'')) =
        Inr (pre @
          [(''Proverka sootvetstviya kolichestva strok'', False,
            Some ''Nekorrektnoe kolichestvo strok: ozhidaetsya 3, najdeno 2''),
           coverage, extras])"
    unfolding c s by simp
  with reaches_scenario_a show ?thesis by blast
qed

text \<open>
  C9. In every result sequence that \<open>run_all_validations\<close> returns, a result has a
  detail iff it did not pass.
\<close>

theorem detail_iff_not_passed:
  assumes "run_all_validations w v = Inr rs"
  shows "\<forall>r\<in>set rs. (detail r \<noteq> None) = (\<not> passed r)"
proof -
  have "list_all consistent rs"
  proof (cases "submission_path v")
    case None
    with assms show ?thesis by (simp add: run_all_validations_def)
  next
    case (Some sp)
    show ?thesis
    proof (cases "path_exists w sp")
      case (Inl e)
      with Some assms show ?thesis by (simp add: run_all_validations_def)
    next
      case f1: (Inr submission_found)
      show ?thesis
      proof (cases submission_found)
        case False
        with Some f1 assms show ?thesis by (auto simp add: run_all_validations_def)
      next
        case True
        with f1 have e1: "path_exists w sp = Inr True" by simp
        show ?thesis
        proof (cases "path_exists w (test_path v)")
          case (Inl e)
          with Some e1 assms show ?thesis by (simp add: run_all_validations_def)
        next
          case f2: (Inr test_found)
          show ?thesis
          proof (cases test_found)
            case False
            with Some e1 f2 assms show ?thesis by (auto simp add: run_all_validations_def)
          next
            case True
            with f2 have e2: "path_exists w (test_path v) = Inr True" by simp
            let ?rs0 = "[(''Proverka nalichiya submission fajla'', True, None),
                         (''Proverka nalichiya test fajla'', True, None)]"
            obtain out e where t: "try_body w v sp ?rs0 = (?rs0 @ out, e)"
              and c: "list_all consistent out"
              using try_body_consistent [of w v sp ?rs0] by blast
            from assms c show ?thesis
              unfolding run_after_existence [OF Some e1 e2] t
              by (cases e) auto
          qed
        qed
      qed
    qed
  qed
  then show ?thesis by (simp add: list_all_iff consistent_def)
qed

theorem detail_iff_not_passed_witness:
  "run_all_validations scenario_a_world (init scenario_a_world ''t.csv'' (Some ''s.csv'')) =
     Inr [(''Proverka nalichiya submission fajla'', True, None),
          (''Proverka nalichiya test fajla'', True, None),
          (''Proverka struktury fajla'', True, None),
          (''Proverka sootvetstviya kolichestva strok'', False,
           Some ''Nekorrektnoe kolichestvo strok: ozhidaetsya 3, najdeno 2''),
          (''Proverka nalichiya vseh uid iz test.csv'', False,
           Some ''Otsutstvuyut zapisi dlya uid: 3''),
          (''Proverka otsutstviya lishnih uid'', True, None)] \<and>
   list_all (\<lambda>r. (detail r \<noteq> None) = (\<not> passed r))
     [(''Proverka nalichiya submission fajla'', True, None),
      (''Proverka nalichiya test fajla'', True, None),
      (''Proverka struktury fajla'', True, None),
      (''Proverka sootvetstviya kolichestva strok'', False,
       Some ''Nekorrektnoe kolichestvo strok: ozhidaetsya 3, najdeno 2''),
      (''Proverka nalichiya vseh uid iz test.csv'', False,
       Some ''Otsutstvuyut zapisi dlya uid: 3''),
      (''Proverka otsutstviya lishnih uid'', True, None)]"
  using detail_iff_not_passed [OF run_scenario_a] run_scenario_a
  unfolding list_all_iff by blast

text \<open>
  C10, as the code has it. In a run that reaches the per-row loop, let row \<open>k\<close> be a
  data row with an empty cell and \<open>u\<close> its uid. The loop leaves the set of seen uids
  after row \<open>k\<close> as it was before row \<open>k\<close>. A later row \<open>j\<close> is not flagged as a
  duplicate of \<open>u\<close> unless a row with three non-empty cells before \<open>j\<close> carries \<open>u\<close>.
  If \<open>u\<close> is a reference uid and no row with three non-empty cells carries it, then
  \<open>u\<close> is in the missing set and the coverage check fails with the listing of that set.
\<close>

theorem incomplete_row_not_collected:
  assumes reach: "reaches_row_checks w v sd td"
    and k: "2 \<le> k" "k \<le> length sd"
    and empty: "[] \<in> set (sd ! (k - 1))"
  shows "\<exists>rs. run_all_validations w v = Inr rs \<and>
     snd (rows_loop (valid_methods v) 2 (take (k - 1) (drop 1 sd)) ([], {})) =
       snd (rows_loop (valid_methods v) 2 (take (k - 2) (drop 1 sd)) ([], {})) \<and>
     (\<forall>j. k < j \<and> hd (sd ! (k - 1)) \<notin> collected (take (j - 2) (drop 1 sd)) \<longrightarrow>
          uniqueness_failure j (hd (sd ! (k - 1))) \<notin> set rs) \<and>
     (hd (sd ! (k - 1)) \<in> set (map hd (drop 1 td)) \<and>
      hd (sd ! (k - 1)) \<notin> collected (drop 1 sd) \<longrightarrow>
        hd (sd ! (k - 1)) \<in> set (map hd (drop 1 td)) - collected (drop 1 sd) \<and>
        (''Proverka nalichiya vseh uid iz test.csv'', False,
         Some (''Otsutstvuyut zapisi dlya uid: '' @
               join '', '' (take 5 (sorted_list_of_set
                 (set (map hd (drop 1 td)) - collected (drop 1 sd)))) @
               (if 5 < card (set (map hd (drop 1 td)) - collected (drop 1 sd))
                then ''...'' else ''''))) \<in> set rs)"
proof -
  let ?u = "hd (sd ! (k - 1))"
  let ?missing = "set (map hd (drop 1 td)) - collected (drop 1 sd)"
  let ?fail = "(''Proverka nalichiya vseh uid iz test.csv'', False,
         Some (''Otsutstvuyut zapisi dlya uid: '' @ listing ?missing))"
  from run_reaches_row_checks [OF reach] obtain pre c e where
    run: "run_all_validations w v =
            Inr (pre @ [c, if ?missing = {} then
                             (''Proverka nalichiya vseh uid iz test.csv'', True, None)
                           else ?fail, e])"
    by simp
  let ?rs = "pre @ [c, if ?missing = {} then
                         (''Proverka nalichiya vseh uid iz test.csv'', True, None)
                       else ?fail, e]"
  from empty have inc: "\<not> complete (sd ! (k - 1))" by (rule empty_cell_incomplete)
  have seen: "snd (rows_loop (valid_methods v) 2 (take (k - 1) (drop 1 sd)) ([], {})) =
       snd (rows_loop (valid_methods v) 2 (take (k - 2) (drop 1 sd)) ([], {}))"
    unfolding rows_loop_seen using collected_skips_incomplete [OF k inc] by simp
  have later: "uniqueness_failure j ?u \<notin> set ?rs"
    if "?u \<notin> collected (take (j - 2) (drop 1 sd))" for j
    using uniqueness_membership [OF reach run, of j ?u] that by blast
  have cover: "?u \<in> ?missing \<and> ?fail \<in> set ?rs"
    if "?u \<in> set (map hd (drop 1 td))" "?u \<notin> collected (drop 1 sd)"
  proof -
    from that have m: "?u \<in> ?missing" by blast
    then have "?missing \<noteq> {}" by blast
    then have "?fail \<in> set ?rs" by (simp del: drop_Suc_Cons One_nat_def)
    with m show ?thesis by blast
  qed
  from run seen later cover show ?thesis
    unfolding listing_def by blast
qed

theorem incomplete_row_not_collected_witness:
  "reaches_row_checks incomplete_only_world (init incomplete_only_world ''t.csv'' (Some ''s.csv''))
     [[''uid'', ''type'', ''request''], [''1'', ''GET'', ''/a''], [''2'', [], ''/b''],
      [''2'', ''GET'', []]]
     [[''uid''], [''1''], [''2'']] \<and>
   [] \<in> set ([[''uid'', ''type'', ''request''], [''1'', ''GET'', ''/a''], [''2'', [], ''/b''],
               [''2'', ''GET'', []]] ! (3 - 1)) \<and>
   (\<exists>rs. run_all_validations incomplete_only_world
            (init incomplete_only_world ''t.csv'' (Some ''s.csv'')) = Inr rs \<and>
         uniqueness_failure 4 ''2'' \<notin> set rs \<and>
         (''Proverka nalichiya vseh uid iz test.csv'', False,
          Some ''Otsutstvuyut zapisi dlya uid: 2'') \<in> set rs)"
proof -
  let ?sd = "[[''uid'', ''type'', ''request''], [''1'', ''GET'', ''/a''], [''2'', [], ''/b''],
              [''2'', ''GET'', []]]"
  let ?td = "[[''uid''], [''1''], [''2'']]"
  have k: "(2::nat) \<le> 3" "3 \<le> length ?sd" by simp_all
  have e: "[] \<in> set (?sd ! (3 - 1))" by simp
  have u: "hd (?sd ! (3 - 1)) = ''2''" by simp
  have c1: "''2'' \<notin> collected (take (4 - 2) (drop 1 ?sd))" by simp
  have c2: "''2'' \<in> set (map hd (drop 1 ?td))" "''2'' \<notin> collected (drop 1 ?sd)" by simp_all
  have m: "set (map hd (drop 1 ?td)) - collected (drop 1 ?sd) = {''2''}" by auto
  have l: "join '', '' (take 5 (sorted_list_of_set {''2''})) @
             (if 5 < card {''2''} then ''...'' else '''') = ''2''" by simp
  from incomplete_row_not_collected [OF reaches_incomplete_only k e, unfolded u m l] obtain rs where
    run: "run_all_validations incomplete_only_world
            (init incomplete_only_world ''t.csv'' (Some ''s.csv'')) = Inr rs" and
    later: "\<forall>j. 3 < j \<and> ''2'' \<notin> collected (take (j - 2) (drop 1 ?sd)) \<longrightarrow>
              uniqueness_failure j ''2'' \<notin> set rs" and
    cover: "''2'' \<in> set (map hd (drop 1 ?td)) \<and> ''2'' \<notin> collected (drop 1 ?sd) \<longrightarrow>
              ''2'' \<in> {''2''} \<and>
              (''Proverka nalichiya vseh uid iz test.csv'', False,
               Some (''Otsutstvuyut zapisi dlya uid: '' @ ''2'')) \<in> set rs"
    by blast
  have "(3::nat) < 4" by simp
  with later c1 have a: "uniqueness_failure 4 ''2'' \<notin> set rs" by blast
  from cover c2 have "(''Proverka nalichiya vseh uid iz test.csv'', False,
               Some (''Otsutstvuyut zapisi dlya uid: '' @ ''2'')) \<in> set rs" by blast
  then have b: "(''Proverka nalichiya vseh uid iz test.csv'', False,
          Some ''Otsutstvuyut zapisi dlya uid: 2'') \<in> set rs" by simp
  from run a b
  have "\<exists>rs. run_all_validations incomplete_only_world
            (init incomplete_only_world ''t.csv'' (Some ''s.csv'')) = Inr rs \<and>
         uniqueness_failure 4 ''2'' \<notin> set rs \<and>
         (''Proverka nalichiya vseh uid iz test.csv'', False,
          Some ''Otsutstvuyut zapisi dlya uid: 2'') \<in> set rs"
    by blast
  with reaches_incomplete_only e show ?thesis by blast
qed

text \<open>
  C10 as stated fails when a row with three non-empty cells carries the same uid: here
  row 3 has an empty cell and uid \<open>1\<close>, row 2 and row 4 carry uid \<open>1\<close> with all cells
  filled. Row 4, later than row 3, is flagged as a duplicate, and uid \<open>1\<close>, a reference
  uid, is not reported missing: the coverage check passes.
\<close>

theorem incomplete_row_uid_flagged_and_covered:
  "reaches_row_checks incomplete_then_complete_world
     (init incomplete_then_complete_world ''t.csv'' (Some ''s.csv''))
     [[''uid'', ''type'', ''request''], [''1'', ''GET'', ''/a''], [''1'', [], ''/b''],
      [''1'', ''GET'', ''/c'']]
     [[''uid''], [''1'']] \<and>
   run_all_validations incomplete_then_complete_world
       (init incomplete_then_complete_world ''t.csv'' (Some ''s.csv'')) =
     Inr [(''Proverka nalichiya submission fajla'', True, None),
          (''Proverka nalichiya test fajla'', True, None),
          (''Proverka struktury fajla'', True, None),
          (''Proverka pustyh znachenij (stroka 3)'', False,
           Some ''Stroka 3: obnaruzheny pustye znacheniya''),
          uniqueness_failure 4 ''1'',
          (''Proverka sootvetstviya kolichestva strok'', False,
           Some ''Nekorrektnoe kolichestvo strok: ozhidaetsya 1, najdeno 3''),
          (''Proverka nalichiya vseh uid iz test.csv'', True, None),
          (''Proverka otsutstviya lishnih uid'', True, None)]"
proof -
  have "run_all_validations incomplete_then_complete_world
       (init incomplete_then_complete_world ''t.csv'' (Some ''s.csv'')) =
     Inr [(''Proverka nalichiya submission fajla'', True, None),
          (''Proverka nalichiya test fajla'', True, None),
          (''Proverka struktury fajla'', True, None),
          (''Proverka pustyh znachenij (stroka 3)'', False,
           Some ''Stroka 3: obnaruzheny pustye znacheniya''),
          uniqueness_failure 4 ''1'',
          (''Proverka sootvetstviya kolichestva strok'', False,
           Some ''Nekorrektnoe kolichestvo strok: ozhidaetsya 1, najdeno 3''),
          (''Proverka nalichiya vseh uid iz test.csv'', True, None),
          (''Proverka otsutstviya lishnih uid'', True, None)]"
    by (simp add: run_all_validations_def try_body_def init_def
          incomplete_then_complete_world_def world_of_def read_csv_def strip_def isspace_def
          check_row_def startswith_def listing_def str_nat.simps digit_char_def Let_def)
  with reaches_incomplete_then_complete show ?thesis by blast
qed

end
